theory Spec2Isabelle
  imports Complex_Main
begin

section \<open>The loss-configuration object and its weight schedules\<close>

text \<open>
  A shallow embedding of \<^verbatim>\<open>src/models/losses.py\<close>: the class \<^verbatim>\<open>Loss\<close>, its
  method \<^verbatim>\<open>update_div_weight\<close> (piecewise annealing of \<^verbatim>\<open>weights[4]\<close>) and its
  method \<^verbatim>\<open>forward\<close>. The methods \<^verbatim>\<open>update_heat_weight\<close>,
  \<^verbatim>\<open>update_eikonal_weight\<close>, \<^verbatim>\<open>update_heat_lambda\<close> and \<^verbatim>\<open>update_boundary_coef\<close>
  repeat the text of \<^verbatim>\<open>update_div_weight\<close> with another cache attribute, another
  decay attribute and another target; they are not modelled separately.

  Numbers. Python's numbers are modelled as exact rationals (\<^typ>\<open>rat\<close>), iteration
  counters as \<^typ>\<open>int\<close>. Rounding of binary floating point is not part of the model:
  every statement below is about the arithmetic the source writes down, carried out
  exactly.

  Exceptions. A call either returns or raises; both outcomes carry the object as the
  call left it, because an attribute assigned before a \<^verbatim>\<open>raise\<close> stays assigned.
\<close>

subsection \<open>Data\<close>

datatype py_error =
    AssertionError
  | TypeError
  | ValueError
  | ZeroDivisionError
  | IndexError
  | Warning

text \<open>
  The attributes of a \<^verbatim>\<open>Loss\<close> instance. \<^verbatim>\<open>decay_params_list\<close> does not exist until
  the first call of \<^verbatim>\<open>update_div_weight\<close> creates it (the source tests it with
  \<^verbatim>\<open>hasattr\<close>), hence the option.
\<close>

record loss =
  weights :: "rat list"
  loss_type :: string
  div_decay :: string
  div_type :: string
  heat_lambda :: rat
  phase_epsilon :: rat
  heat_decay :: string
  eikonal_decay :: string
  heat_lambda_decay :: string
  boundary_coef_decay :: string
  use_div :: bool
  use_heat :: bool
  use_phase :: bool
  importance_sampling :: bool
  decay_params_list :: "(rat \<times> rat) list option"

text \<open>\<^verbatim>\<open>needle in haystack\<close> on strings.\<close>

fun str_in :: "string \<Rightarrow> string \<Rightarrow> bool" where
  "str_in needle [] = (needle = [])"
| "str_in needle (c # cs) = (take (length needle) (c # cs) = needle \<or> str_in needle cs)"

text \<open>\<^verbatim>\<open>Loss.__init__\<close>; the defaults of the keyword arguments are the caller's business.\<close>

definition Loss_init ::
  "rat list \<Rightarrow> string \<Rightarrow> string \<Rightarrow> string \<Rightarrow> rat \<Rightarrow> rat \<Rightarrow> string \<Rightarrow> string \<Rightarrow> string \<Rightarrow> string
     \<Rightarrow> bool \<Rightarrow> loss" where
  "Loss_init ws lt dd dt hl pe hdec hld ed bcd imp =
     \<lparr> weights = ws, loss_type = lt, div_decay = dd, div_type = dt, heat_lambda = hl,
       phase_epsilon = pe, heat_decay = hdec, eikonal_decay = ed, heat_lambda_decay = hld,
       boundary_coef_decay = bcd,
       use_div = str_in ''div'' lt, use_heat = str_in ''heat'' lt,
       use_phase = str_in ''phase'' lt, importance_sampling = imp,
       decay_params_list = None \<rparr>"

subsection \<open>Schedule construction\<close>

text \<open>\<^verbatim>\<open>xs[1:-1]\<close> and \<^verbatim>\<open>xs[::2]\<close>; \<^verbatim>\<open>xs[1::2]\<close> is \<open>step2 (drop 1 xs)\<close>.\<close>

definition middle :: "'a list \<Rightarrow> 'a list" where
  "middle xs = butlast (drop 1 xs)"

fun step2 :: "'a list \<Rightarrow> 'a list" where
  "step2 [] = []"
| "step2 [x] = [x]"
| "step2 (x # y # xs) = x # step2 xs"

text \<open>
  \<^verbatim>\<open>list(zip([params[0], *params[1:-1][1::2], params[-1]], [0, *params[1:-1][::2], 1]))\<close>.
  It is evaluated only after \<^verbatim>\<open>assert len(params) >= 2\<close>, so \<open>hd\<close> and \<open>last\<close> are
  applied to a non-empty list.
\<close>

definition build_decay_params_list :: "rat list \<Rightarrow> (rat \<times> rat) list" where
  "build_decay_params_list params =
     zip (hd params # step2 (drop 1 (middle params)) @ [last params])
         (0 # step2 (middle params) @ [1])"

text \<open>
  The \<^verbatim>\<open>if not hasattr(self, "decay_params_list")\<close> block. \<^verbatim>\<open>params\<close> defaults to
  \<^verbatim>\<open>None\<close>, on which \<^verbatim>\<open>len\<close> raises \<^verbatim>\<open>TypeError\<close>. The result is the object together
  with the list the rest of the call reads.
\<close>

definition ensure_decay_params_list ::
  "loss \<Rightarrow> rat list option \<Rightarrow> (py_error \<times> loss) + (loss \<times> (rat \<times> rat) list)" where
  "ensure_decay_params_list self params =
     (case decay_params_list self of
        Some cps \<Rightarrow> Inr (self, cps)
      | None \<Rightarrow>
          (case params of
             None \<Rightarrow> Inl (TypeError, self)
           | Some ps \<Rightarrow>
               if \<not> length ps \<ge> 2 then Inl (AssertionError, self)
               else if \<not> length (middle ps) mod 2 = 0 then Inl (AssertionError, self)
               else Inr (self\<lparr>decay_params_list := Some (build_decay_params_list ps)\<rparr>,
                         build_decay_params_list ps)))"

subsection \<open>Bracket selection\<close>

text \<open>
  Python's \<^verbatim>\<open>min(xs, key=k)\<close> and \<^verbatim>\<open>max(xs, key=k)\<close>: the first element whose key is
  minimal (maximal); \<^verbatim>\<open>ValueError\<close> on an empty list, here \<open>None\<close>.
\<close>

fun min_from :: "('a \<Rightarrow> 'k::linorder) \<Rightarrow> 'a \<Rightarrow> 'a list \<Rightarrow> 'a" where
  "min_from key best [] = best"
| "min_from key best (x # xs) = min_from key (if key x < key best then x else best) xs"

fun max_from :: "('a \<Rightarrow> 'k::linorder) \<Rightarrow> 'a \<Rightarrow> 'a list \<Rightarrow> 'a" where
  "max_from key best [] = best"
| "max_from key best (x # xs) = max_from key (if key best < key x then x else best) xs"

definition py_min :: "('a \<Rightarrow> 'k::linorder) \<Rightarrow> 'a list \<Rightarrow> 'a option" where
  "py_min key xs = (case xs of [] \<Rightarrow> None | x # rest \<Rightarrow> Some (min_from key x rest))"

definition py_max :: "('a \<Rightarrow> 'k::linorder) \<Rightarrow> 'a list \<Rightarrow> 'a option" where
  "py_max key xs = (case xs of [] \<Rightarrow> None | x # rest \<Rightarrow> Some (max_from key x rest))"

text \<open>
  \<^verbatim>\<open>min([tup for tup in cps if tup[1] >= curr], key=lambda tup: tup[1])\<close> and
  \<^verbatim>\<open>max([tup for tup in cps if tup[1] <= curr], key=lambda tup: tup[1])\<close>.
  The source's \<^verbatim>\<open>curr\<close> is written \<open>cur\<close> here.
\<close>

definition upper_bracket :: "(rat \<times> rat) list \<Rightarrow> rat \<Rightarrow> (rat \<times> rat) option" where
  "upper_bracket cps cur = py_min snd (filter (\<lambda>tup. snd tup \<ge> cur) cps)"

definition lower_bracket :: "(rat \<times> rat) list \<Rightarrow> rat \<Rightarrow> (rat \<times> rat) option" where
  "lower_bracket cps cur = py_max snd (filter (\<lambda>tup. snd tup \<le> cur) cps)"

subsection \<open>The annealing kernels\<close>

text \<open>\<^verbatim>\<open>self.weights[i] = v\<close> on a list: \<^verbatim>\<open>IndexError\<close> when \<open>i\<close> is out of range.\<close>

definition set_weight :: "loss \<Rightarrow> nat \<Rightarrow> rat \<Rightarrow> (py_error \<times> loss) + loss" where
  "set_weight self i v =
     (if i < length (weights self) then Inr (self\<lparr>weights := (weights self)[i := v]\<rparr>)
      else Inl (IndexError, self))"

text \<open>
  The \<^verbatim>\<open>if self.div_decay == ...\<close> chain. The right-hand side of an assignment is
  evaluated before the store, so a division by zero (by \<^verbatim>\<open>n_iterations\<close> or by
  \<^verbatim>\<open>e - s\<close>) is raised before any \<^verbatim>\<open>IndexError\<close>.
\<close>

definition anneal_div_weight ::
  "loss \<Rightarrow> int \<Rightarrow> int \<Rightarrow> rat \<Rightarrow> rat \<Rightarrow> rat \<Rightarrow> rat \<Rightarrow> (py_error \<times> loss) + loss" where
  "anneal_div_weight self current_iteration n_iterations w0 s we e =
     (if div_decay self = ''linear'' then
        (if of_int current_iteration < s * of_int n_iterations then set_weight self 4 w0
         else if of_int current_iteration \<ge> s * of_int n_iterations
                 \<and> of_int current_iteration < e * of_int n_iterations then
           (if n_iterations = 0 \<or> e - s = 0 then Inl (ZeroDivisionError, self)
            else set_weight self 4
                   (w0 + (we - w0) * (of_int current_iteration / of_int n_iterations - s) / (e - s)))
         else set_weight self 4 we)
      else if div_decay self = ''quintic'' then
        (if of_int current_iteration < s * of_int n_iterations then set_weight self 4 w0
         else if of_int current_iteration \<ge> s * of_int n_iterations
                 \<and> of_int current_iteration < e * of_int n_iterations then
           (if n_iterations = 0 \<or> e - s = 0 then Inl (ZeroDivisionError, self)
            else set_weight self 4
                   (w0 + (we - w0) *
                      (1 - (1 - (of_int current_iteration / of_int n_iterations - s) / (e - s)) ^ 5)))
         else set_weight self 4 we)
      else if div_decay self = ''step'' then
        (if of_int current_iteration < s * of_int n_iterations then set_weight self 4 w0
         else set_weight self 4 we)
      else if div_decay self = ''none'' then Inr self
      else Inl (Warning, self))"

subsection \<open>\<^verbatim>\<open>Loss.update_div_weight\<close>\<close>

definition update_div_weight ::
  "loss \<Rightarrow> int \<Rightarrow> int \<Rightarrow> rat list option \<Rightarrow> (py_error \<times> loss) + loss" where
  "update_div_weight self current_iteration n_iterations params =
     (case ensure_decay_params_list self params of
        Inl err \<Rightarrow> Inl err
      | Inr (self1, cps) \<Rightarrow>
          if n_iterations = 0 then Inl (ZeroDivisionError, self1)
          else
            let cur = of_int current_iteration / of_int n_iterations in
            (case upper_bracket cps cur of
               None \<Rightarrow> Inl (ValueError, self1)
             | Some (we, e) \<Rightarrow>
                 (case lower_bracket cps cur of
                    None \<Rightarrow> Inl (ValueError, self1)
                  | Some (w0, s) \<Rightarrow>
                      anneal_div_weight self1 current_iteration n_iterations w0 s we e)))"

subsection \<open>\<^verbatim>\<open>Loss.forward\<close>\<close>

text \<open>
  \<^verbatim>\<open>forward\<close> computes its terms with the tensor library (\<^verbatim>\<open>torch\<close>,
  \<^verbatim>\<open>utils.gradient\<close>) and then combines them with \<^verbatim>\<open>self.weights\<close>. The tensor
  library is not part of the repository: what its calls return on the given points and
  predictions is a parameter of the model, one field per call site. The terms that the
  source computes from an attribute of \<^verbatim>\<open>self\<close> (\<^verbatim>\<open>heat_lambda\<close> and
  \<^verbatim>\<open>importance_sampling\<close> for the heat term, \<^verbatim>\<open>phase_epsilon\<close> for the phase term)
  are functions of that attribute.
\<close>

record tensors =
  nonmnfld_dist_pred_isnan :: bool
  nonmnfld_dist_pred_isinf :: bool
  mnfld_pred_is_None :: bool
  mnfld_grad_isnan :: bool
  nonmnfld_grad_isnan :: bool
  div_full_l2_mean :: rat
  div_full_l1_mean :: rat
  div_dir_l2_mean :: rat
  div_dir_l1_mean :: rat
  eikonal_abs_mean :: rat
  eikonal_squared_mean :: rat
  mnfld_normals_gt_is_None :: bool
  normal_abs_norm_mean :: rat
  normal_cosine_mean :: rat
  boundary_mean :: rat
  inter_mean :: rat
  heat_loss_mean :: "rat \<Rightarrow> bool \<Rightarrow> rat"
  phase_loss_mean :: "rat \<Rightarrow> rat"
  nonmnfld_dists_gt_mean :: "rat option"
  nonmnfld_dists_sal_mean :: "rat option"
  latent_is_None :: bool
  latent_reg_mean :: "rat option"

text \<open>The terms computed before the section \<^verbatim>\<open>Losses\<close>.\<close>

record terms =
  div_term :: rat
  eikonal_term :: rat
  normal_term :: rat
  boundary_term :: rat
  inter_term :: rat
  heat_term :: rat
  phase_term :: rat
  nonmnfld_dists_loss :: rat
  sal_term :: rat

text \<open>
  The dictionary \<^verbatim>\<open>forward\<close> returns (its key \<^verbatim>\<open>"loss"\<close> is \<open>loss_value\<close> here). The
  gradient tensor returned beside it belongs to the tensor library and is left out.
\<close>

record forward_out =
  loss_value :: rat
  out_boundary_term :: rat
  out_inter_term :: rat
  out_latent_reg_term :: rat
  out_eikonal_term :: rat
  out_normal_term :: rat
  out_div_term :: rat
  out_sal_term :: rat
  out_heat_term :: rat
  out_diff_term :: rat

text \<open>Sequencing of calls that may raise.\<close>

definition bind_result :: "'e + 'a \<Rightarrow> ('a \<Rightarrow> 'e + 'b) \<Rightarrow> 'e + 'b" where
  "bind_result m f = (case m of Inl err \<Rightarrow> Inl err | Inr a \<Rightarrow> f a)"

text \<open>\<^verbatim>\<open>self.weights[i]\<close> read from a list.\<close>

definition get_weight :: "loss \<Rightarrow> nat \<Rightarrow> (py_error \<times> loss) + rat" where
  "get_weight self i =
     (if i < length (weights self) then Inr (weights self ! i) else Inl (IndexError, self))"

text \<open>
  A sum \<^verbatim>\<open>self.weights[i] * term_i + self.weights[j] * term_j + ...\<close>: the weights are
  read from left to right, so the first index out of range is the one that raises.
\<close>

fun weighted_sum :: "loss \<Rightarrow> (nat \<times> rat) list \<Rightarrow> (py_error \<times> loss) + rat" where
  "weighted_sum self [] = Inr 0"
| "weighted_sum self ((i, t) # rest) =
     bind_result (get_weight self i) (\<lambda>w.
     bind_result (weighted_sum self rest) (\<lambda>r. Inr (w * t + r)))"

text \<open>
  The section \<^verbatim>\<open>Compute required terms\<close>, in the order of the source: the checks for
  NaN and Inf, then the nine terms. None of it assigns to \<^verbatim>\<open>self\<close>.
  With \<^verbatim>\<open>mnfld_pred\<close> equal to \<^verbatim>\<open>None\<close> the gradient is \<^verbatim>\<open>None\<close> and
  \<^verbatim>\<open>torch.isnan(None)\<close> raises \<^verbatim>\<open>TypeError\<close>.
\<close>

definition compute_div_term :: "loss \<Rightarrow> tensors \<Rightarrow> (py_error \<times> loss) + rat" where
  "compute_div_term self t =
     (if \<not> use_div self then Inr 0
      else bind_result (get_weight self 4) (\<lambda>w4.
        if \<not> w4 > 0 then Inr 0
        else if div_type self = ''full_l2'' then Inr (div_full_l2_mean t)
        else if div_type self = ''full_l1'' then Inr (div_full_l1_mean t)
        else if div_type self = ''dir_l2'' then Inr (div_dir_l2_mean t)
        else if div_type self = ''dir_l1'' then Inr (div_dir_l1_mean t)
        else Inl (Warning, self)))"

definition compute_eikonal_term :: "loss \<Rightarrow> tensors \<Rightarrow> (py_error \<times> loss) + rat" where
  "compute_eikonal_term self t =
     bind_result (get_weight self 3) (\<lambda>w3.
       if w3 > 0 then
         Inr (if loss_type self \<noteq> ''phase'' then eikonal_abs_mean t else eikonal_squared_mean t)
       else Inr 0)"

definition compute_normal_term :: "loss \<Rightarrow> tensors \<Rightarrow> (py_error \<times> loss) + rat" where
  "compute_normal_term self t =
     (if mnfld_normals_gt_is_None t then Inr 0
      else bind_result (get_weight self 2) (\<lambda>w2.
        if w2 > 0 then
          Inr (if str_in ''igr'' (loss_type self) \<or> str_in ''phase'' (loss_type self)
               then normal_abs_norm_mean t else normal_cosine_mean t)
        else Inr 0))"

definition compute_inter_term :: "loss \<Rightarrow> tensors \<Rightarrow> (py_error \<times> loss) + rat" where
  "compute_inter_term self t =
     bind_result (get_weight self 1) (\<lambda>w1. if w1 > 0 then Inr (inter_mean t) else Inr 0)"

definition compute_heat_term :: "loss \<Rightarrow> tensors \<Rightarrow> (py_error \<times> loss) + rat" where
  "compute_heat_term self t =
     (if \<not> use_heat self then Inr 0
      else bind_result (get_weight self 6) (\<lambda>w6.
        if w6 > 0 then Inr (heat_loss_mean t (heat_lambda self) (importance_sampling self))
        else Inr 0))"

definition compute_phase_term :: "loss \<Rightarrow> tensors \<Rightarrow> (py_error \<times> loss) + rat" where
  "compute_phase_term self t =
     (if \<not> use_phase self then Inr 0
      else bind_result (get_weight self 7) (\<lambda>w7.
        if w7 > 0 then Inr (phase_loss_mean t (phase_epsilon self)) else Inr 0))"

definition compute_terms :: "loss \<Rightarrow> tensors \<Rightarrow> (py_error \<times> loss) + terms" where
  "compute_terms self t =
     (if nonmnfld_dist_pred_isnan t then Inl (ValueError, self)
      else if nonmnfld_dist_pred_isinf t then Inl (ValueError, self)
      else if mnfld_pred_is_None t then Inl (TypeError, self)
      else if mnfld_grad_isnan t then Inl (ValueError, self)
      else if nonmnfld_grad_isnan t then Inl (ValueError, self)
      else
        bind_result (compute_div_term self t) (\<lambda>dv.
        bind_result (compute_eikonal_term self t) (\<lambda>ek.
        bind_result (compute_normal_term self t) (\<lambda>nm.
        bind_result (compute_inter_term self t) (\<lambda>it.
        bind_result (compute_heat_term self t) (\<lambda>ht.
        bind_result (compute_phase_term self t) (\<lambda>ph.
          Inr \<lparr> div_term = dv, eikonal_term = ek, normal_term = nm,
                boundary_term = boundary_mean t, inter_term = it, heat_term = ht,
                phase_term = ph,
                nonmnfld_dists_loss =
                  (case nonmnfld_dists_gt_mean t of None \<Rightarrow> 0 | Some d \<Rightarrow> d),
                sal_term = (case nonmnfld_dists_sal_mean t of None \<Rightarrow> 0 | Some d \<Rightarrow> d) \<rparr>)))))))"

text \<open>
  The section \<^verbatim>\<open>Losses\<close>: the \<^verbatim>\<open>if self.loss_type == ...\<close> chain. Three of its
  branches assign to \<^verbatim>\<open>self.weights\<close> before they sum.
\<close>

definition combine_losses :: "loss \<Rightarrow> terms \<Rightarrow> (py_error \<times> loss) + (rat \<times> loss)" where
  "combine_losses self tm =
     (if loss_type self = ''siren'' then
        bind_result (weighted_sum self
          [(0, boundary_term tm), (1, inter_term tm), (2, normal_term tm), (3, eikonal_term tm)])
          (\<lambda>l. Inr (l, self))
      else if loss_type self = ''siren_wo_n'' then
        bind_result (set_weight self 2 0) (\<lambda>self1.
        bind_result (weighted_sum self1
          [(0, boundary_term tm), (1, inter_term tm), (3, eikonal_term tm)])
          (\<lambda>l. Inr (l, self1)))
      else if loss_type self = ''igr'' then
        bind_result (set_weight self 1 0) (\<lambda>self1.
        bind_result (weighted_sum self1
          [(0, boundary_term tm), (2, normal_term tm), (3, eikonal_term tm)])
          (\<lambda>l. Inr (l, self1)))
      else if loss_type self = ''igr_wo_n'' then
        bind_result (set_weight self 1 0) (\<lambda>self1.
        bind_result (set_weight self1 2 0) (\<lambda>self2.
        bind_result (weighted_sum self2 [(0, boundary_term tm), (3, eikonal_term tm)])
          (\<lambda>l. Inr (l, self2))))
      else if loss_type self = ''siren_w_div'' then
        bind_result (weighted_sum self
          [(0, boundary_term tm), (1, inter_term tm), (2, normal_term tm), (3, eikonal_term tm),
           (4, div_term tm)])
          (\<lambda>l. Inr (l, self))
      else if loss_type self = ''siren_wo_n_w_div'' then
        bind_result (weighted_sum self
          [(0, boundary_term tm), (1, inter_term tm), (3, eikonal_term tm), (4, div_term tm)])
          (\<lambda>l. Inr (l, self))
      else if loss_type self = ''igr_wo_eik_w_heat'' then
        bind_result (weighted_sum self [(0, boundary_term tm), (6, heat_term tm)])
          (\<lambda>l. Inr (l, self))
      else if loss_type self = ''igr_w_heat'' then
        bind_result (weighted_sum self
          [(0, boundary_term tm), (3, eikonal_term tm), (6, heat_term tm)])
          (\<lambda>l. Inr (l, self))
      else if loss_type self = ''sal'' then
        bind_result (weighted_sum self [(0, boundary_term tm), (5, sal_term tm)])
          (\<lambda>l. Inr (l, self))
      else if loss_type self = ''phase'' then
        bind_result (weighted_sum self
          [(0, boundary_term tm), (2, normal_term tm), (3, eikonal_term tm), (7, phase_term tm)])
          (\<lambda>l. Inr (l, self))
      else if loss_type self = ''everything_including_div_heat_sal'' then
        bind_result (weighted_sum self
          [(0, boundary_term tm), (1, inter_term tm), (2, normal_term tm), (3, eikonal_term tm),
           (4, div_term tm), (5, sal_term tm), (6, heat_term tm)])
          (\<lambda>l. Inr (l, self))
      else Inl (Warning, self))"

text \<open>
  The latent regularisation: only when both \<^verbatim>\<open>latent\<close> and \<^verbatim>\<open>latent_reg\<close> are given
  is the term computed and \<^verbatim>\<open>self.weights[5] * latent_reg_term\<close> added to the loss.
\<close>

definition add_latent_reg ::
  "loss \<Rightarrow> tensors \<Rightarrow> rat \<Rightarrow> (py_error \<times> loss) + (rat \<times> rat)" where
  "add_latent_reg self t l =
     (case latent_reg_mean t of
        None \<Rightarrow> Inr (l, 0)
      | Some lr \<Rightarrow>
          if latent_is_None t then Inr (l, 0)
          else bind_result (get_weight self 5) (\<lambda>w5. Inr (l + w5 * lr, lr)))"

definition forward :: "loss \<Rightarrow> tensors \<Rightarrow> (py_error \<times> loss) + (forward_out \<times> loss)" where
  "forward self t =
     bind_result (compute_terms self t) (\<lambda>tm.
     bind_result (combine_losses self tm) (\<lambda>(l, self1).
     bind_result (add_latent_reg self1 t l) (\<lambda>(l1, latent_reg_term).
       Inr (\<lparr> loss_value = l1, out_boundary_term = boundary_term tm,
               out_inter_term = inter_term tm, out_latent_reg_term = latent_reg_term,
               out_eikonal_term = eikonal_term tm, out_normal_term = normal_term tm,
               out_div_term = div_term tm, out_sal_term = sal_term tm,
               out_heat_term = heat_term tm, out_diff_term = nonmnfld_dists_loss tm \<rparr>,
            self1))))"

text \<open>The presets that \<^verbatim>\<open>forward\<close> recognises.\<close>

definition loss_type_presets :: "string list" where
  "loss_type_presets =
     [''siren'', ''siren_wo_n'', ''igr'', ''igr_wo_n'', ''siren_w_div'', ''siren_wo_n_w_div'',
      ''igr_wo_eik_w_heat'', ''igr_w_heat'', ''sal'', ''phase'',
      ''everything_including_div_heat_sal'']"

subsection \<open>Objects and tensors used as examples\<close>

definition example_loss :: "string \<Rightarrow> string \<Rightarrow> loss" where
  "example_loss lt dd =
     Loss_init [3000, 100, 100, 50, 100, 0, 0, 0] lt dd ''dir_l1'' 100 (1 / 100)
       ''none'' ''none'' ''none'' ''none'' True"

definition example_tensors :: tensors where
  "example_tensors =
     \<lparr> nonmnfld_dist_pred_isnan = False, nonmnfld_dist_pred_isinf = False,
       mnfld_pred_is_None = False, mnfld_grad_isnan = False, nonmnfld_grad_isnan = False,
       div_full_l2_mean = 1, div_full_l1_mean = 1, div_dir_l2_mean = 1, div_dir_l1_mean = 1,
       eikonal_abs_mean = 1 / 2, eikonal_squared_mean = 1 / 4,
       mnfld_normals_gt_is_None = False, normal_abs_norm_mean = 1 / 5, normal_cosine_mean = 1 / 10,
       boundary_mean = 1 / 100, inter_mean = 1 / 50,
       heat_loss_mean = (\<lambda>lam imp. 1), phase_loss_mean = (\<lambda>eps. 1),
       nonmnfld_dists_gt_mean = None, nonmnfld_dists_sal_mean = None,
       latent_is_None = True, latent_reg_mean = None \<rparr>"

section \<open>Properties of schedule construction\<close>

lemma step2_pairs: "step2 (concat (map (\<lambda>(f, v). [f, v]) mids)) = map fst mids"
  by (induction mids) auto

lemma step2_drop1_pairs: "step2 (drop 1 (concat (map (\<lambda>(f, v). [f, v]) mids))) = map snd mids"
proof (induction mids)
  case Nil
  then show ?case by simp
next
  case (Cons m mids)
  obtain f v where m: "m = (f, v)" by (cases m)
  show ?case
  proof (cases mids)
    case Nil
    with m show ?thesis by simp
  next
    case (Cons m' rest)
    obtain f' v' where "m' = (f', v')" by (cases m')
    with Cons.IH Cons m show ?thesis by simp
  qed
qed

lemma middle_flat: "middle (a # xs @ [b]) = xs"
  by (simp add: middle_def)

section \<open>Selecting the brackets\<close>

text \<open>What \<open>min\<close> and \<open>max\<close> with a key return: an element of the list, extremal for the key, and the first such one.\<close>

lemma min_from_mem: "min_from key b xs \<in> set (b # xs)"
proof (induction xs arbitrary: b)
  case Nil
  show ?case by simp
next
  case (Cons x xs)
  have "min_from key (if key x < key b then x else b) xs
          \<in> set ((if key x < key b then x else b) # xs)"
    by (rule Cons.IH)
  then show ?case by (cases "key x < key b") auto
qed

lemma min_from_le: "y \<in> set (b # xs) \<Longrightarrow> key (min_from key b xs) \<le> key y"
proof (induction xs arbitrary: b y)
  case Nil
  then show ?case by simp
next
  case (Cons x xs)
  define b' where "b' = (if key x < key b then x else b)"
  have m: "min_from key b (x # xs) = min_from key b' xs" by (simp add: b'_def)
  have le_b': "key (min_from key b' xs) \<le> key b'"
    by (rule Cons.IH) simp
  have b'_le: "key b' \<le> key b" "key b' \<le> key x" by (auto simp: b'_def)
  show ?case
  proof (cases "y \<in> set xs")
    case True
    then have "key (min_from key b' xs) \<le> key y" by (intro Cons.IH) simp
    then show ?thesis unfolding m .
  next
    case False
    with Cons.prems have "y = b \<or> y = x" by auto
    then have "key b' \<le> key y" using b'_le by auto
    with le_b' show ?thesis unfolding m by (rule order_trans)
  qed
qed

lemma min_from_first:
  "find (\<lambda>y. key y = key (min_from key b xs)) (b # xs) = Some (min_from key b xs)"
proof (induction xs arbitrary: b)
  case Nil
  then show ?case by simp
next
  case (Cons x xs)
  define b' where "b' = (if key x < key b then x else b)"
  define m where "m = min_from key b' xs"
  have meq: "min_from key b (x # xs) = m" by (simp add: b'_def m_def)
  have IH: "find (\<lambda>y. key y = key m) (b' # xs) = Some m"
    unfolding m_def by (rule Cons.IH)
  have le: "key m \<le> key b'" unfolding m_def by (rule min_from_le) simp
  show ?case
  proof (cases "key x < key b")
    case True
    then have b': "b' = x" by (simp add: b'_def)
    from le b' True have "key b \<noteq> key m" by auto
    with IH b' show ?thesis unfolding meq by simp
  next
    case False
    then have b': "b' = b" by (simp add: b'_def)
    show ?thesis
    proof (cases "key b = key m")
      case True
      with IH b' show ?thesis unfolding meq by simp
    next
      case neq: False
      with le b' have "key m < key b" by simp
      with False have "key x \<noteq> key m" by auto
      with IH b' neq show ?thesis unfolding meq by simp
    qed
  qed
qed

lemma max_from_mem: "max_from key b xs \<in> set (b # xs)"
proof (induction xs arbitrary: b)
  case Nil
  show ?case by simp
next
  case (Cons x xs)
  have "max_from key (if key b < key x then x else b) xs
          \<in> set ((if key b < key x then x else b) # xs)"
    by (rule Cons.IH)
  then show ?case by (cases "key b < key x") auto
qed

lemma max_from_ge: "y \<in> set (b # xs) \<Longrightarrow> key y \<le> key (max_from key b xs)"
proof (induction xs arbitrary: b y)
  case Nil
  then show ?case by simp
next
  case (Cons x xs)
  define b' where "b' = (if key b < key x then x else b)"
  have m: "max_from key b (x # xs) = max_from key b' xs" by (simp add: b'_def)
  have ge_b': "key b' \<le> key (max_from key b' xs)"
    by (rule Cons.IH) simp
  have b'_ge: "key b \<le> key b'" "key x \<le> key b'" by (auto simp: b'_def)
  show ?case
  proof (cases "y \<in> set xs")
    case True
    then have "key y \<le> key (max_from key b' xs)" by (intro Cons.IH) simp
    then show ?thesis unfolding m .
  next
    case False
    with Cons.prems have "y = b \<or> y = x" by auto
    then have "key y \<le> key b'" using b'_ge by auto
    then show ?thesis unfolding m using ge_b' by (rule order_trans)
  qed
qed

lemma max_from_first:
  "find (\<lambda>y. key y = key (max_from key b xs)) (b # xs) = Some (max_from key b xs)"
proof (induction xs arbitrary: b)
  case Nil
  then show ?case by simp
next
  case (Cons x xs)
  define b' where "b' = (if key b < key x then x else b)"
  define m where "m = max_from key b' xs"
  have meq: "max_from key b (x # xs) = m" by (simp add: b'_def m_def)
  have IH: "find (\<lambda>y. key y = key m) (b' # xs) = Some m"
    unfolding m_def by (rule Cons.IH)
  have ge: "key b' \<le> key m" unfolding m_def by (rule max_from_ge) simp
  show ?case
  proof (cases "key b < key x")
    case True
    then have b': "b' = x" by (simp add: b'_def)
    from ge b' True have "key b \<noteq> key m" by auto
    with IH b' show ?thesis unfolding meq by simp
  next
    case False
    then have b': "b' = b" by (simp add: b'_def)
    show ?thesis
    proof (cases "key b = key m")
      case True
      with IH b' show ?thesis unfolding meq by simp
    next
      case neq: False
      with ge b' have "key b < key m" by simp
      with False have "key x \<noteq> key m" by auto
      with IH b' neq show ?thesis unfolding meq by simp
    qed
  qed
qed

lemma find_filter: "find P (filter Q xs) = find (\<lambda>x. Q x \<and> P x) xs"
  by (induction xs) auto

lemma py_min_None: "py_min key xs = None \<longleftrightarrow> xs = []"
  by (simp add: py_min_def split: list.splits)

lemma py_max_None: "py_max key xs = None \<longleftrightarrow> xs = []"
  by (simp add: py_max_def split: list.splits)

lemma py_min_Some:
  assumes "py_min key xs = Some m"
  shows "m \<in> set xs" and "\<And>y. y \<in> set xs \<Longrightarrow> key m \<le> key y"
    and "find (\<lambda>y. key y = key m) xs = Some m"
proof -
  from assms obtain b rest where xs: "xs = b # rest" and m: "m = min_from key b rest"
    by (auto simp: py_min_def split: list.splits)
  show "m \<in> set xs" unfolding xs m by (rule min_from_mem)
  show "\<And>y. y \<in> set xs \<Longrightarrow> key m \<le> key y" unfolding xs m by (rule min_from_le)
  show "find (\<lambda>y. key y = key m) xs = Some m" unfolding xs m by (rule min_from_first)
qed

lemma py_max_Some:
  assumes "py_max key xs = Some m"
  shows "m \<in> set xs" and "\<And>y. y \<in> set xs \<Longrightarrow> key y \<le> key m"
    and "find (\<lambda>y. key y = key m) xs = Some m"
proof -
  from assms obtain b rest where xs: "xs = b # rest" and m: "m = max_from key b rest"
    by (auto simp: py_max_def split: list.splits)
  show "m \<in> set xs" unfolding xs m by (rule max_from_mem)
  show "\<And>y. y \<in> set xs \<Longrightarrow> key y \<le> key m" unfolding xs m by (rule max_from_ge)
  show "find (\<lambda>y. key y = key m) xs = Some m" unfolding xs m by (rule max_from_first)
qed

lemma upper_bracket_None: "upper_bracket cps p = None \<longleftrightarrow> (\<forall>t \<in> set cps. snd t < p)"
  by (auto simp: upper_bracket_def py_min_None filter_empty_conv not_le)

lemma lower_bracket_None: "lower_bracket cps p = None \<longleftrightarrow> (\<forall>t \<in> set cps. p < snd t)"
  by (auto simp: lower_bracket_def py_max_None filter_empty_conv not_le)

lemma upper_bracket_Some:
  assumes "upper_bracket cps p = Some (we, e)"
  shows "(we, e) \<in> set cps" and "p \<le> e"
    and "\<And>v f. (v, f) \<in> set cps \<Longrightarrow> p \<le> f \<Longrightarrow> e \<le> f"
proof -
  note m = py_min_Some[OF assms[unfolded upper_bracket_def]]
  from m(1) show "(we, e) \<in> set cps" and "p \<le> e" by auto
  fix v f assume "(v, f) \<in> set cps" "p \<le> f"
  then have "(v, f) \<in> set (filter (\<lambda>tup. p \<le> snd tup) cps)" by simp
  from m(2)[OF this] show "e \<le> f" by simp
qed

lemma lower_bracket_Some:
  assumes "lower_bracket cps p = Some (w0, s)"
  shows "(w0, s) \<in> set cps" and "s \<le> p"
    and "\<And>v f. (v, f) \<in> set cps \<Longrightarrow> f \<le> p \<Longrightarrow> f \<le> s"
proof -
  note m = py_max_Some[OF assms[unfolded lower_bracket_def]]
  from m(1) show "(w0, s) \<in> set cps" and "s \<le> p" by auto
  fix v f assume "(v, f) \<in> set cps" "f \<le> p"
  then have "(v, f) \<in> set (filter (\<lambda>tup. snd tup \<le> p) cps)" by simp
  from m(2)[OF this] show "f \<le> s" by simp
qed

text \<open>At a control point's own fraction both searches return the first control point with that fraction.\<close>

lemma upper_bracket_at_fraction:
  assumes "(v, p) \<in> set cps"
  shows "upper_bracket cps p = find (\<lambda>t. snd t = p) cps"
proof -
  from assms have "upper_bracket cps p \<noteq> None"
    unfolding upper_bracket_None by force
  then obtain we e where u: "upper_bracket cps p = Some (we, e)" by auto
  from upper_bracket_Some(2)[OF u] upper_bracket_Some(3)[OF u assms] have e: "e = p" by simp
  from py_min_Some(3)[OF u[unfolded upper_bracket_def]]
  have "find (\<lambda>y. p \<le> snd y \<and> snd y = p) cps = Some (we, e)"
    by (simp add: find_filter e)
  moreover have "(\<lambda>y::rat \<times> rat. p \<le> snd y \<and> snd y = p) = (\<lambda>t. snd t = p)" by auto
  ultimately show ?thesis using u by simp
qed

lemma lower_bracket_at_fraction:
  assumes "(v, p) \<in> set cps"
  shows "lower_bracket cps p = find (\<lambda>t. snd t = p) cps"
proof -
  from assms have "lower_bracket cps p \<noteq> None"
    unfolding lower_bracket_None by force
  then obtain w0 s where l: "lower_bracket cps p = Some (w0, s)" by auto
  from lower_bracket_Some(2)[OF l] lower_bracket_Some(3)[OF l assms] have s: "s = p" by simp
  from py_max_Some(3)[OF l[unfolded lower_bracket_def]]
  have "find (\<lambda>y. snd y \<le> p \<and> snd y = p) cps = Some (w0, s)"
    by (simp add: find_filter s)
  moreover have "(\<lambda>y::rat \<times> rat. snd y \<le> p \<and> snd y = p) = (\<lambda>t. snd t = p)" by auto
  ultimately show ?thesis using l by simp
qed

text \<open>Brackets of zero width are one and the same control point.\<close>

lemma brackets_same_fraction:
  assumes "upper_bracket cps p = Some (we, e)" and "lower_bracket cps p = Some (w0, s)" and "s = e"
  shows "e = p" and "w0 = we"
proof -
  from upper_bracket_Some(2)[OF assms(1)] lower_bracket_Some(2)[OF assms(2)] assms(3)
  show e: "e = p" by simp
  from upper_bracket_Some(1)[OF assms(1)] e have mem: "(we, p) \<in> set cps" by simp
  have "Some (w0, s) = Some (we, e)"
    using upper_bracket_at_fraction[OF mem] lower_bracket_at_fraction[OF mem] assms(1,2)
    by (simp only:)
  then show "w0 = we" by simp
qed

section \<open>Claims about schedule construction\<close>

lemma build_decay_params_list_flat:
  "build_decay_params_list (start # concat (map (\<lambda>(f, v). [f, v]) mids) @ [end_value])
     = (start, 0) # map (\<lambda>(f, v). (v, f)) mids @ [(end_value, 1)]"
proof -
  have m: "middle (start # concat (map (\<lambda>(f, v). [f, v]) mids) @ [end_value])
             = concat (map (\<lambda>(f, v). [f, v]) mids)"
    by (rule middle_flat)
  show ?thesis
    unfolding build_decay_params_list_def m step2_pairs step2_drop1_pairs
    by (simp add: zip_map_fst_snd zip_map1 zip_map2 map_idI case_prod_beta zip_same_conv_map)
qed

lemma length_flat_pairs: "length (concat (map (\<lambda>(f, v). [f, v]) mids)) = 2 * length mids"
  by (induction mids) auto

text \<open>
  Claim C4. From a flat sequence \<open>(start_value, [mid_fraction, mid_value]*, end_value)\<close> the
  first call builds exactly the control points
  \<open>[(start_value, 0), (mid_value_1, mid_fraction_1), ..., (end_value, 1)]\<close> and stores them in
  \<^verbatim>\<open>decay_params_list\<close>: the values are the start value, the second element of every
  middle pair and the end value; the fractions are 0, the first element of every middle pair
  and 1.
\<close>

theorem construction_builds_control_points:
  assumes "decay_params_list self = None"
  shows "ensure_decay_params_list self
           (Some (start # concat (map (\<lambda>(f, v). [f, v]) mids) @ [end_value]))
         = Inr (self\<lparr>decay_params_list :=
                        Some ((start, 0) # map (\<lambda>(f, v). (v, f)) mids @ [(end_value, 1)])\<rparr>,
                (start, 0) # map (\<lambda>(f, v). (v, f)) mids @ [(end_value, 1)])"
proof -
  have m: "middle (start # concat (map (\<lambda>(f, v). [f, v]) mids) @ [end_value])
             = concat (map (\<lambda>(f, v). [f, v]) mids)"
    by (rule middle_flat)
  show ?thesis
    unfolding ensure_decay_params_list_def
    using assms
    by (simp add: m length_flat_pairs build_decay_params_list_flat del: append.simps)
qed

theorem construction_builds_control_points_witness:
  "decay_params_list (example_loss ''siren_wo_n_w_div'' ''linear'') = None
   \<and> ensure_decay_params_list (example_loss ''siren_wo_n_w_div'' ''linear'')
        (Some [100, 1 / 2, 100, 3 / 4, 0, 0])
     = Inr ((example_loss ''siren_wo_n_w_div'' ''linear'')
              \<lparr>decay_params_list := Some [(100, 0), (100, 1 / 2), (0, 3 / 4), (0, 1)]\<rparr>,
            [(100, 0), (100, 1 / 2), (0, 3 / 4), (0, 1)])"
proof -
  have none: "decay_params_list (example_loss ''siren_wo_n_w_div'' ''linear'') = None"
    by (simp add: example_loss_def Loss_init_def)
  from construction_builds_control_points[OF none, of 100 "[(1 / 2, 100), (3 / 4, 0)]" 0] none
  show ?thesis by simp
qed

section \<open>The update call\<close>

lemma ensure_Inr:
  assumes "ensure_decay_params_list self params = Inr (self1, cps)"
  shows "decay_params_list self1 = Some cps"
    and "self1 = self\<lparr>decay_params_list := Some cps\<rparr>"
    and "weights self1 = weights self"
    and "div_decay self1 = div_decay self"
proof -
  from assms show 2: "self1 = self\<lparr>decay_params_list := Some cps\<rparr>"
    by (auto simp: ensure_decay_params_list_def split: option.splits if_splits)
  then show "decay_params_list self1 = Some cps" "weights self1 = weights self"
    "div_decay self1 = div_decay self" by simp_all
qed

lemma ensure_Inl:
  assumes "ensure_decay_params_list self params = Inl (err, self')"
  shows "self' = self" and "decay_params_list self = None"
    and "err = AssertionError \<or> err = TypeError"
  using assms by (auto simp: ensure_decay_params_list_def split: option.splits if_splits)

lemma update_div_weight_brackets:
  assumes "ensure_decay_params_list self params = Inr (self1, cps)" and "n \<noteq> 0"
    and "upper_bracket cps (of_int ci / of_int n) = Some (we, e)"
    and "lower_bracket cps (of_int ci / of_int n) = Some (w0, s)"
  shows "update_div_weight self ci n params = anneal_div_weight self1 ci n w0 s we e"
  using assms by (simp add: update_div_weight_def Let_def)

lemma progress_less_iff:
  fixes n ci :: int and q :: rat
  assumes "0 < n"
  shows "of_int ci < q * of_int n \<longleftrightarrow> of_int ci / of_int n < q"
    and "q * of_int n \<le> of_int ci \<longleftrightarrow> q \<le> of_int ci / of_int n"
  using assms by (simp_all add: pos_divide_less_eq pos_le_divide_eq)





section \<open>Outcomes of the kernels\<close>

lemma set_weight_Inr:
  "set_weight self i v = Inr self' \<Longrightarrow> self' = self\<lparr>weights := (weights self)[i := v]\<rparr>"
  by (simp add: set_weight_def split: if_splits)

lemma set_weight_Inl:
  "set_weight self i v = Inl (err, self') \<Longrightarrow> self' = self \<and> err = IndexError"
  by (simp add: set_weight_def split: if_splits)

lemma anneal_div_weight_Inl:
  assumes "anneal_div_weight self ci n w0 s we e = Inl (err, self')"
  shows "self' = self"
    and "err = ZeroDivisionError \<or> err = IndexError \<or> err = Warning"
    and "err = ZeroDivisionError \<Longrightarrow> n = 0 \<or> e - s = 0"
  using assms unfolding anneal_div_weight_def
  by (auto split: if_splits dest: set_weight_Inl)

lemma anneal_div_weight_Inr:
  assumes "anneal_div_weight self ci n w0 s we e = Inr self'"
  shows "self'\<lparr>weights := weights self\<rparr> = self"
  using assms unfolding anneal_div_weight_def
  by (auto split: if_splits dest!: set_weight_Inr)

text \<open>With brackets of zero width no kernel divides.\<close>

lemma anneal_div_weight_zero_width:
  assumes "div_decay self = ''linear'' \<or> div_decay self = ''quintic'' \<or> div_decay self = ''step''"
    and "\<not> of_int ci < s * (of_int n :: rat)"
  shows "anneal_div_weight self ci n w0 s we s = set_weight self 4 we"
  using assms unfolding anneal_div_weight_def by auto

lemma anneal_div_weight_no_zero_division:
  assumes "n \<noteq> 0"
  shows "anneal_div_weight self ci n w0 s we e \<noteq> Inl (ZeroDivisionError, self')"
proof
  assume a: "anneal_div_weight self ci n w0 s we e = Inl (ZeroDivisionError, self')"
  show False
  proof (cases "e - s = 0")
    case True
    then have "e = s" by simp
    with a assms show False
      unfolding anneal_div_weight_def by (auto split: if_splits dest: set_weight_Inl)
  next
    case False
    with anneal_div_weight_Inl(3)[OF a] assms show False by simp
  qed
qed

section \<open>What a query assigns\<close>



lemma step_kernel_general:
  assumes n: "0 < n" and step: "div_decay self = ''step''"
    and ens: "ensure_decay_params_list self params = Inr (self1, cps)"
    and lo: "lower_bracket cps (of_int ci / of_int n) = Some (w0, s)"
    and up: "upper_bracket cps (of_int ci / of_int n) = Some (we, e)"
  shows "update_div_weight self ci n params
         = set_weight self1 4 (if of_int ci / of_int n < s then w0 else we)"
proof -
  from n have n0: "n \<noteq> 0" by simp
  show ?thesis
    unfolding update_div_weight_brackets[OF ens n0 up lo] anneal_div_weight_def
    using step ensure_Inr(4)[OF ens] progress_less_iff(1)[OF n, of ci s] by simp
qed

lemma step_kernel_example:
  assumes "decay_params_list self = Some [(100, 0), (100, 1 / 2), (0, 3 / 4), (0, 1)]"
    and "div_decay self = ''step''" and "4 < length (weights self)"
    and "0 < n" and "of_int ci / of_int n = (3 / 5 :: rat)"
  shows "update_div_weight self ci n params = Inr (self\<lparr>weights := (weights self)[4 := 0]\<rparr>)"
proof -
  let ?cps = "[(100, 0), (100, 1 / 2), (0, 3 / 4), (0, 1)] :: (rat \<times> rat) list"
  have ens: "ensure_decay_params_list self params = Inr (self, ?cps)"
    using assms(1) by (simp add: ensure_decay_params_list_def)
  have lo: "lower_bracket ?cps (of_int ci / of_int n) = Some (100, 1 / 2)"
    unfolding assms(5) by (simp add: lower_bracket_def py_max_def)
  have up: "upper_bracket ?cps (of_int ci / of_int n) = Some (0, 3 / 4)"
    unfolding assms(5) by (simp add: upper_bracket_def py_min_def)
  show ?thesis
    unfolding step_kernel_general[OF assms(4) assms(2) ens lo up] assms(5)
    using assms(3) by (simp add: set_weight_def)
qed

lemma snd_unique:
  assumes "distinct (map snd cps)" and "(v, p) \<in> set cps" and "(w, p) \<in> set cps"
  shows "v = w"
proof -
  from assms(1) have "inj_on snd (set cps)" by (simp add: distinct_map)
  from inj_onD[OF this _ assms(2,3)] show ?thesis by simp
qed

lemma find_SomeD: "find P xs = Some x \<Longrightarrow> P x \<and> x \<in> set xs"
  by (induction xs) (auto split: if_splits)

lemma exact_fraction_general:
  assumes n: "n \<noteq> 0"
    and k: "div_decay self = ''linear'' \<or> div_decay self = ''quintic'' \<or> div_decay self = ''step''"
    and ens: "ensure_decay_params_list self params = Inr (self1, cps)"
    and mem: "(v, of_int ci / of_int n) \<in> set cps"
  shows "\<exists>w. find (\<lambda>t. snd t = of_int ci / of_int n) cps = Some (w, of_int ci / of_int n)
            \<and> lower_bracket cps (of_int ci / of_int n) = Some (w, of_int ci / of_int n)
            \<and> upper_bracket cps (of_int ci / of_int n) = Some (w, of_int ci / of_int n)
            \<and> update_div_weight self ci n params = set_weight self1 4 w
            \<and> (distinct (map snd cps) \<longrightarrow> w = v)"
proof -
  let ?p = "of_int ci / of_int n :: rat"
  from mem have "find (\<lambda>t. snd t = ?p) cps \<noteq> None"
    by (auto simp: find_None_iff)
  then obtain w f where f: "find (\<lambda>t. snd t = ?p) cps = Some (w, f)" by auto
  from find_SomeD[OF this] have fp: "f = ?p" by simp
  from find_SomeD[OF f] have wmem: "(w, f) \<in> set cps" by (rule conjunct2)
  note up = upper_bracket_at_fraction[OF mem, unfolded f fp]
  note lo = lower_bracket_at_fraction[OF mem, unfolded f fp]
  have nb: "\<not> of_int ci < ?p * (of_int n :: rat)" using n by simp
  have k1: "div_decay self1 = ''linear'' \<or> div_decay self1 = ''quintic'' \<or> div_decay self1 = ''step''"
    using k ensure_Inr(4)[OF ens] by simp
  have upd: "update_div_weight self ci n params = set_weight self1 4 w"
    unfolding update_div_weight_brackets[OF ens n up lo]
    by (rule anneal_div_weight_zero_width[OF k1 nb])
  have "distinct (map snd cps) \<longrightarrow> w = v"
    using snd_unique[OF _ wmem[unfolded fp] mem] by blast
  with f fp up lo upd show ?thesis by blast
qed

section \<open>Claims about the kernels\<close>

text \<open>
  Claim C6. With the step kernel, a query at progress \<open>p\<close> that selects the lower bracket
  \<open>(w0, s)\<close> and the upper bracket \<open>(we, e)\<close> assigns \<open>w0\<close> when \<open>p < s\<close> and \<open>we\<close> when
  \<open>s \<le> p\<close>: a jump, no blending. In particular, for the control points
  \<open>[(100, 0), (100, 0.5), (0, 0.75), (0, 1)]\<close> and progress 0.6 the value assigned is 0.
\<close>

theorem step_kernel_value:
  "(\<forall>self ci n params self1 cps w0 s we e.
      0 < n \<and> div_decay self = ''step''
      \<and> ensure_decay_params_list self params = Inr (self1, cps)
      \<and> lower_bracket cps (of_int ci / of_int n) = Some (w0, s)
      \<and> upper_bracket cps (of_int ci / of_int n) = Some (we, e)
      \<longrightarrow> update_div_weight self ci n params
            = set_weight self1 4 (if of_int ci / of_int n < s then w0 else we))
   \<and> (\<forall>self ci n params.
      decay_params_list self = Some [(100, 0), (100, 1 / 2), (0, 3 / 4), (0, 1)]
      \<and> div_decay self = ''step'' \<and> 4 < length (weights self)
      \<and> 0 < n \<and> of_int ci / of_int n = (3 / 5 :: rat)
      \<longrightarrow> update_div_weight self ci n params
            = Inr (self\<lparr>weights := (weights self)[4 := 0]\<rparr>))"
  using step_kernel_general step_kernel_example by blast

theorem step_kernel_value_witness:
  "update_div_weight (example_loss ''siren_wo_n_w_div'' ''step'') 6000 10000
      (Some [100, 1 / 2, 100, 3 / 4, 0, 0])
   = Inr ((example_loss ''siren_wo_n_w_div'' ''step'')
            \<lparr>decay_params_list := Some [(100, 0), (100, 1 / 2), (0, 3 / 4), (0, 1)],
             weights := [3000, 100, 100, 50, 0, 0, 0, 0]\<rparr>)"
proof -
  let ?self = "example_loss ''siren_wo_n_w_div'' ''step''"
  let ?cps = "[(100, 0), (100, 1 / 2), (0, 3 / 4), (0, 1)] :: (rat \<times> rat) list"
  have ens: "ensure_decay_params_list ?self (Some [100, 1 / 2, 100, 3 / 4, 0, 0])
               = Inr (?self\<lparr>decay_params_list := Some ?cps\<rparr>, ?cps)"
    by (simp add: ensure_decay_params_list_def middle_def build_decay_params_list_def
          example_loss_def Loss_init_def)
  have lo: "lower_bracket ?cps (of_int 6000 / of_int 10000) = Some (100, 1 / 2)"
    by (simp add: lower_bracket_def py_max_def)
  have up: "upper_bracket ?cps (of_int 6000 / of_int 10000) = Some (0, 3 / 4)"
    by (simp add: upper_bracket_def py_min_def)
  have pre: "(0::int) < 10000 \<and> div_decay ?self = ''step''"
    by (simp add: example_loss_def Loss_init_def)
  from step_kernel_value ens lo up pre
  have "update_div_weight ?self 6000 10000 (Some [100, 1 / 2, 100, 3 / 4, 0, 0])
        = set_weight (?self\<lparr>decay_params_list := Some ?cps\<rparr>) 4
            (if (of_int 6000 / of_int 10000 :: rat) < 1 / 2 then 100 else 0)"
    by blast
  then show ?thesis by (simp add: set_weight_def example_loss_def Loss_init_def)
qed



text \<open>
  Claim C5. When the progress equals the fraction of a control point, both searches return
  one and the same control point, the first in the list with that fraction: the bracket has
  zero width, and each of the kernels linear, quintic and step assigns that control
  point's value. Where the fractions of the schedule are pairwise distinct it is the only
  control point with that fraction.
\<close>

theorem exact_fraction_value:
  assumes "n \<noteq> 0"
    and "div_decay self = ''linear'' \<or> div_decay self = ''quintic'' \<or> div_decay self = ''step''"
    and "ensure_decay_params_list self params = Inr (self1, cps)"
    and "(v, of_int ci / of_int n) \<in> set cps"
  shows "\<exists>w. find (\<lambda>t. snd t = of_int ci / of_int n) cps = Some (w, of_int ci / of_int n)
            \<and> lower_bracket cps (of_int ci / of_int n) = Some (w, of_int ci / of_int n)
            \<and> upper_bracket cps (of_int ci / of_int n) = Some (w, of_int ci / of_int n)
            \<and> update_div_weight self ci n params = set_weight self1 4 w
            \<and> (distinct (map snd cps) \<longrightarrow> w = v)"
  using assms by (rule exact_fraction_general)

theorem exact_fraction_value_witness:
  "update_div_weight (example_loss ''siren_wo_n_w_div'' ''linear'') 3 4
      (Some [100, 1 / 2, 100, 3 / 4, 7, 0])
   = Inr ((example_loss ''siren_wo_n_w_div'' ''linear'')
            \<lparr>decay_params_list := Some [(100, 0), (100, 1 / 2), (7, 3 / 4), (0, 1)],
             weights := [3000, 100, 100, 50, 7, 0, 0, 0]\<rparr>)"
proof -
  let ?self = "example_loss ''siren_wo_n_w_div'' ''linear''"
  let ?cps = "[(100, 0), (100, 1 / 2), (7, 3 / 4), (0, 1)] :: (rat \<times> rat) list"
  have n: "(4::int) \<noteq> 0" by simp
  have k: "div_decay ?self = ''linear'' \<or> div_decay ?self = ''quintic'' \<or> div_decay ?self = ''step''"
    by (simp add: example_loss_def Loss_init_def)
  have ens: "ensure_decay_params_list ?self (Some [100, 1 / 2, 100, 3 / 4, 7, 0])
               = Inr (?self\<lparr>decay_params_list := Some ?cps\<rparr>, ?cps)"
    by (simp add: ensure_decay_params_list_def middle_def build_decay_params_list_def
          example_loss_def Loss_init_def)
  have mem: "(7, of_int 3 / of_int 4) \<in> set ?cps" by simp
  have d: "distinct (map snd ?cps)" by simp
  from exact_fraction_value[OF n k ens mem] d
  have "update_div_weight ?self 3 4 (Some [100, 1 / 2, 100, 3 / 4, 7, 0])
          = set_weight (?self\<lparr>decay_params_list := Some ?cps\<rparr>) 4 7"
    by auto
  then show ?thesis by (simp add: set_weight_def example_loss_def Loss_init_def)
qed

section \<open>Outcomes of the update call\<close>

lemma update_div_weight_Inl:
  assumes "update_div_weight self ci n params = Inl (err, self')"
  obtains (validation) "ensure_decay_params_list self params = Inl (err, self')"
  | (zero) cps where "ensure_decay_params_list self params = Inr (self', cps)"
      and "n = 0" and "err = ZeroDivisionError"
  | (range) cps where "ensure_decay_params_list self params = Inr (self', cps)"
      and "n \<noteq> 0" and "err = ValueError"
      and "upper_bracket cps (of_int ci / of_int n) = None
           \<or> lower_bracket cps (of_int ci / of_int n) = None"
  | (kernel) self1 cps w0 s we e where "ensure_decay_params_list self params = Inr (self1, cps)"
      and "n \<noteq> 0"
      and "upper_bracket cps (of_int ci / of_int n) = Some (we, e)"
      and "lower_bracket cps (of_int ci / of_int n) = Some (w0, s)"
      and "anneal_div_weight self1 ci n w0 s we e = Inl (err, self')"
  using assms unfolding update_div_weight_def Let_def
  by (auto split: sum.splits prod.splits if_splits option.splits)

lemma update_div_weight_Inr:
  assumes "update_div_weight self ci n params = Inr self'"
  obtains self1 cps w0 s we e where "ensure_decay_params_list self params = Inr (self1, cps)"
      and "n \<noteq> 0"
      and "upper_bracket cps (of_int ci / of_int n) = Some (we, e)"
      and "lower_bracket cps (of_int ci / of_int n) = Some (w0, s)"
      and "anneal_div_weight self1 ci n w0 s we e = Inr self'"
  using assms unfolding update_div_weight_def Let_def
  by (auto split: sum.splits prod.splits if_splits option.splits)

lemma update_div_weight_no_zero_division:
  assumes "n \<noteq> 0"
  shows "update_div_weight self ci n params \<noteq> Inl (ZeroDivisionError, self')"
proof
  assume "update_div_weight self ci n params = Inl (ZeroDivisionError, self')"
  then show False
  proof (cases rule: update_div_weight_Inl)
    case validation
    from ensure_Inl(3)[OF this] show False by simp
  next
    case (zero cps)
    with assms show False by simp
  next
    case (range cps)
    then show False by simp
  next
    case (kernel self1 cps w0 s we e)
    with anneal_div_weight_no_zero_division[OF assms] show False by blast
  qed
qed

lemma update_div_weight_assertion:
  assumes "update_div_weight self ci n params = Inl (AssertionError, self')"
  shows "ensure_decay_params_list self params = Inl (AssertionError, self')"
  using assms
proof (cases rule: update_div_weight_Inl)
  case validation
  then show ?thesis .
next
  case (zero cps)
  then show ?thesis by simp
next
  case (range cps)
  then show ?thesis by simp
next
  case (kernel self1 cps w0 s we e)
  from anneal_div_weight_Inl(2)[OF kernel(5)] show ?thesis by simp
qed

lemma length_middle: "length (middle ps) = length ps - 2"
  by (simp add: middle_def)

lemma update_div_weight_cached:
  assumes "decay_params_list self = Some cps"
  shows "ensure_decay_params_list self params = Inr (self, cps)"
    and "update_div_weight self ci n params = update_div_weight self ci n params'"
proof -
  show e: "\<And>params. ensure_decay_params_list self params = Inr (self, cps)"
    using assms by (simp add: ensure_decay_params_list_def)
  show "update_div_weight self ci n params = update_div_weight self ci n params'"
    unfolding update_div_weight_def e ..
qed

lemma update_div_weight_keeps_cache:
  assumes "decay_params_list self = Some cps"
  shows "case update_div_weight self ci n params of
           Inl (err, self') \<Rightarrow>
             decay_params_list self' = Some cps \<and> err \<noteq> AssertionError \<and> err \<noteq> TypeError
         | Inr self' \<Rightarrow> decay_params_list self' = Some cps"
proof (cases "update_div_weight self ci n params")
  case (Inl a)
  obtain err self' where a: "a = (err, self')" by (cases a)
  note ens = update_div_weight_cached(1)[OF assms]
  from Inl[unfolded a] have "decay_params_list self' = Some cps \<and> err \<noteq> AssertionError \<and> err \<noteq> TypeError"
  proof (cases rule: update_div_weight_Inl)
    case validation
    with ens show ?thesis by simp
  next
    case (zero cps')
    with ens assms show ?thesis by simp
  next
    case (range cps')
    with ens assms show ?thesis by simp
  next
    case (kernel self1 cps' w0 s we e)
    from kernel(1) ens have "self1 = self" by simp
    with anneal_div_weight_Inl(1,2)[OF kernel(5)] assms show ?thesis by auto
  qed
  with Inl a show ?thesis by simp
next
  case (Inr self')
  then obtain self1 cps' w0 s we e
    where ens': "ensure_decay_params_list self params = Inr (self1, cps')"
      and an: "anneal_div_weight self1 ci n w0 s we e = Inr self'"
    by (rule update_div_weight_Inr)
  from ens' update_div_weight_cached(1)[OF assms] have "self1 = self" by simp
  with anneal_div_weight_Inr[OF an] have "self'\<lparr>weights := weights self\<rparr> = self" by simp
  then have "decay_params_list self' = decay_params_list self"
    by (metis loss.select_convs(15) loss.surjective loss.update_convs(1))
  with Inr assms show ?thesis by simp
qed

section \<open>Claims about failures of the update call\<close>

text \<open>
  Claim C3, as stated: some constructed schedule and query whose brackets share a fraction
  make the linear or quintic kernel divide by \<open>e - s = 0\<close>. It is false: the division stands
  in the branch guarded by \<^verbatim>\<open>s * n_iterations <= current_iteration < e * n_iterations\<close>,
  which no query with \<open>s = e\<close> enters, so with \<^verbatim>\<open>n_iterations\<close> other than 0 the call never
  raises \<^verbatim>\<open>ZeroDivisionError\<close>.
\<close>

theorem zero_width_division_counterexample:
  "\<not> (\<exists>self ci n params self'.
        n \<noteq> 0 \<and> update_div_weight self ci n params = Inl (ZeroDivisionError, self'))"
  using update_div_weight_no_zero_division by blast

text \<open>
  Claim C3, amended. When the two brackets share a fraction (\<open>s = e\<close>), the linear and the
  quintic kernel take their last branch: they assign \<open>we\<close> and divide by nothing.
\<close>

theorem zero_width_bracket_assigns_upper:
  assumes "n \<noteq> 0"
    and "ensure_decay_params_list self params = Inr (self1, cps)"
    and "upper_bracket cps (of_int ci / of_int n) = Some (we, e)"
    and "lower_bracket cps (of_int ci / of_int n) = Some (w0, s)"
    and "s = e"
    and "div_decay self = ''linear'' \<or> div_decay self = ''quintic''"
  shows "update_div_weight self ci n params = set_weight self1 4 we
         \<and> (\<forall>self'. update_div_weight self ci n params \<noteq> Inl (ZeroDivisionError, self'))"
proof -
  from brackets_same_fraction(1)[OF assms(3,4,5)] assms(5)
  have s: "s = of_int ci / of_int n" by simp
  have nb: "\<not> of_int ci < s * (of_int n :: rat)" unfolding s using assms(1) by simp
  have k: "div_decay self1 = ''linear'' \<or> div_decay self1 = ''quintic''
           \<or> div_decay self1 = ''step''"
    using assms(6) ensure_Inr(4)[OF assms(2)] by auto
  have "update_div_weight self ci n params = anneal_div_weight self1 ci n w0 s we s"
    using update_div_weight_brackets[OF assms(2,1,3,4)] assms(5) by simp
  also have "\<dots> = set_weight self1 4 we"
    by (rule anneal_div_weight_zero_width[OF k nb])
  finally show ?thesis using update_div_weight_no_zero_division[OF assms(1)] by blast
qed

theorem zero_width_bracket_assigns_upper_witness:
  "upper_bracket [(100, 0), (100, 1 / 2), (0, 1 / 2), (0, 1)] (of_int 1 / of_int 2)
     = Some (100, 1 / 2)
   \<and> lower_bracket [(100, 0), (100, 1 / 2), (0, 1 / 2), (0, 1)] (of_int 1 / of_int 2)
     = Some (100, 1 / 2)
   \<and> update_div_weight (example_loss ''siren_wo_n_w_div'' ''quintic'') 1 2
        (Some [100, 1 / 2, 100, 1 / 2, 0, 0])
     = Inr ((example_loss ''siren_wo_n_w_div'' ''quintic'')
              \<lparr>decay_params_list := Some [(100, 0), (100, 1 / 2), (0, 1 / 2), (0, 1)],
               weights := [3000, 100, 100, 50, 100, 0, 0, 0]\<rparr>)"
proof -
  let ?self = "example_loss ''siren_wo_n_w_div'' ''quintic''"
  let ?cps = "[(100, 0), (100, 1 / 2), (0, 1 / 2), (0, 1)] :: (rat \<times> rat) list"
  have n: "(2::int) \<noteq> 0" by simp
  have k: "div_decay ?self = ''linear'' \<or> div_decay ?self = ''quintic''"
    by (simp add: example_loss_def Loss_init_def)
  have ens: "ensure_decay_params_list ?self (Some [100, 1 / 2, 100, 1 / 2, 0, 0])
               = Inr (?self\<lparr>decay_params_list := Some ?cps\<rparr>, ?cps)"
    by (simp add: ensure_decay_params_list_def middle_def build_decay_params_list_def
          example_loss_def Loss_init_def)
  have lo: "lower_bracket ?cps (of_int 1 / of_int 2) = Some (100, 1 / 2)"
    by (simp add: lower_bracket_def py_max_def)
  have up: "upper_bracket ?cps (of_int 1 / of_int 2) = Some (100, 1 / 2)"
    by (simp add: upper_bracket_def py_min_def)
  from zero_width_bracket_assigns_upper[OF n ens up lo refl k]
  have "update_div_weight ?self 1 2 (Some [100, 1 / 2, 100, 1 / 2, 0, 0])
          = set_weight (?self\<lparr>decay_params_list := Some ?cps\<rparr>) 4 100"
    by blast
  then have "update_div_weight ?self 1 2 (Some [100, 1 / 2, 100, 1 / 2, 0, 0])
     = Inr (?self\<lparr>decay_params_list := Some ?cps,
                   weights := [3000, 100, 100, 50, 100, 0, 0, 0]\<rparr>)"
    by (simp add: set_weight_def example_loss_def Loss_init_def)
  with lo up show ?thesis by blast
qed

text \<open>
  Claim C8, as stated: for every constructed schedule a progress beyond the last control
  point's fraction, which is 1, fails. It is false for a schedule with a middle fraction
  above 1, which construction accepts: with params \<open>(100, 2, 50, 0)\<close> and progress 3/2 the
  upper search finds \<open>(50, 2)\<close> and the call returns.
\<close>

theorem progress_beyond_one_counterexample:
  "snd (last (build_decay_params_list [100, 2, 50, 0])) < (of_int 3 / of_int 2 :: rat)
   \<and> update_div_weight (example_loss ''siren_wo_n_w_div'' ''linear'') 3 2 (Some [100, 2, 50, 0])
     = Inr ((example_loss ''siren_wo_n_w_div'' ''linear'')
              \<lparr>decay_params_list := Some [(100, 0), (50, 2), (0, 1)],
               weights := [3000, 100, 100, 50, 25, 0, 0, 0]\<rparr>)"
  by (simp add: update_div_weight_def ensure_decay_params_list_def middle_def
        build_decay_params_list_def example_loss_def Loss_init_def upper_bracket_def
        lower_bracket_def py_min_def py_max_def anneal_div_weight_def set_weight_def Let_def)

text \<open>
  Claim C8, amended. If the progress exceeds the fraction of every control point (with no
  middle fraction above 1: if it exceeds 1), the upper search filters to the empty list and
  the call raises \<^verbatim>\<open>ValueError\<close>; the weights are those before the call, and the
  control-point list stays cached.
\<close>

theorem progress_beyond_all_fractions_fails:
  assumes "n \<noteq> 0"
    and "ensure_decay_params_list self params = Inr (self1, cps)"
    and "\<forall>tup \<in> set cps. snd tup < of_int ci / of_int n"
  shows "filter (\<lambda>tup. snd tup \<ge> of_int ci / of_int n) cps = []
         \<and> upper_bracket cps (of_int ci / of_int n) = None
         \<and> update_div_weight self ci n params = Inl (ValueError, self1)
         \<and> weights self1 = weights self
         \<and> decay_params_list self1 = Some cps"
proof -
  from assms(3) have f: "filter (\<lambda>tup. snd tup \<ge> of_int ci / of_int n) cps = []"
    by (auto simp: filter_empty_conv)
  from assms(3) have u: "upper_bracket cps (of_int ci / of_int n) = None"
    by (simp add: upper_bracket_None)
  have "update_div_weight self ci n params = Inl (ValueError, self1)"
    using assms(1,2) u by (simp add: update_div_weight_def Let_def)
  with f u ensure_Inr(1,3)[OF assms(2)] show ?thesis by blast
qed

theorem progress_beyond_all_fractions_fails_witness:
  "update_div_weight (example_loss ''siren_wo_n_w_div'' ''linear'') 3 2
      (Some [100, 1 / 2, 50, 0])
   = Inl (ValueError, (example_loss ''siren_wo_n_w_div'' ''linear'')
            \<lparr>decay_params_list := Some [(100, 0), (50, 1 / 2), (0, 1)]\<rparr>)"
proof -
  let ?self = "example_loss ''siren_wo_n_w_div'' ''linear''"
  let ?cps = "[(100, 0), (50, 1 / 2), (0, 1)] :: (rat \<times> rat) list"
  have n: "(2::int) \<noteq> 0" by simp
  have ens: "ensure_decay_params_list ?self (Some [100, 1 / 2, 50, 0])
               = Inr (?self\<lparr>decay_params_list := Some ?cps\<rparr>, ?cps)"
    by (simp add: ensure_decay_params_list_def middle_def build_decay_params_list_def
          example_loss_def Loss_init_def)
  have all: "\<forall>tup \<in> set ?cps. snd tup < of_int 3 / of_int 2" by simp
  from progress_beyond_all_fractions_fails[OF n ens all] show ?thesis by blast
qed

text \<open>
  Claim C9, as stated, names params \<open>(1.0, 0.5, 2.0, 3.0)\<close> as an input that fails for an
  odd count of middle elements. Its middle \<open>(0.5, 2.0)\<close> has two elements: the first call
  accepts it, builds \<open>[(1, 0), (2, 0.5), (3, 1)]\<close> and goes on to assign a weight.
\<close>

theorem even_middle_accepted_counterexample:
  "length (middle [1, 1 / 2, 2, 3 :: rat]) = 2
   \<and> update_div_weight (example_loss ''siren_wo_n_w_div'' ''linear'') 1 2
        (Some [1, 1 / 2, 2, 3])
     = Inr ((example_loss ''siren_wo_n_w_div'' ''linear'')
              \<lparr>decay_params_list := Some [(1, 0), (2, 1 / 2), (3, 1)],
               weights := [3000, 100, 100, 50, 2, 0, 0, 0]\<rparr>)"
  by (simp add: update_div_weight_def ensure_decay_params_list_def middle_def
        build_decay_params_list_def example_loss_def Loss_init_def upper_bracket_def
        lower_bracket_def py_min_def py_max_def anneal_div_weight_def set_weight_def Let_def)

text \<open>
  Claim C9, amended. A first call (no cached list) with a params sequence raises
  \<^verbatim>\<open>AssertionError\<close> if and only if the sequence has fewer than 2 elements or an odd count
  of middle elements; it then leaves the object as it was, with no list built and no weight
  changed. A sequence of length at least 2 with an even middle count is accepted and its
  control points are cached; \<open>(1.0, 0.5, 2.0, 3.0)\<close> is one of these, while
  \<open>(1.0, 0.5, 2.0)\<close> fails.
\<close>

theorem validation_fails_iff:
  assumes "decay_params_list self = None"
  shows "((\<exists>self'. update_div_weight self ci n (Some ps) = Inl (AssertionError, self'))
            \<longleftrightarrow> length ps < 2 \<or> odd (length (middle ps)))
       \<and> (length ps < 2 \<or> odd (length (middle ps))
            \<longrightarrow> update_div_weight self ci n (Some ps) = Inl (AssertionError, self))
       \<and> (2 \<le> length ps \<and> even (length (middle ps))
            \<longrightarrow> ensure_decay_params_list self (Some ps)
                 = Inr (self\<lparr>decay_params_list := Some (build_decay_params_list ps)\<rparr>,
                        build_decay_params_list ps))
       \<and> length (middle ps) = length ps - 2"
proof -
  have bad: "update_div_weight self ci n (Some ps) = Inl (AssertionError, self)"
    if "length ps < 2 \<or> odd (length (middle ps))"
    using that assms
    by (auto simp: update_div_weight_def ensure_decay_params_list_def odd_iff_mod_2_eq_one)
  have good: "ensure_decay_params_list self (Some ps)
                 = Inr (self\<lparr>decay_params_list := Some (build_decay_params_list ps)\<rparr>,
                        build_decay_params_list ps)"
    if "2 \<le> length ps \<and> even (length (middle ps))"
    using that assms by (auto simp: ensure_decay_params_list_def)
  have only: "length ps < 2 \<or> odd (length (middle ps))"
    if "update_div_weight self ci n (Some ps) = Inl (AssertionError, self')" for self'
  proof (rule ccontr)
    assume "\<not> (length ps < 2 \<or> odd (length (middle ps)))"
    then have "2 \<le> length ps \<and> even (length (middle ps))" by auto
    from good[OF this] update_div_weight_assertion[OF that] show False by simp
  qed
  from bad good only length_middle[of ps] show ?thesis by blast
qed

theorem validation_fails_iff_witness:
  "odd (length (middle [1, 1 / 2, 2 :: rat]))
   \<and> update_div_weight (example_loss ''siren_wo_n_w_div'' ''linear'') 1 2 (Some [1, 1 / 2, 2])
     = Inl (AssertionError, example_loss ''siren_wo_n_w_div'' ''linear'')
   \<and> ensure_decay_params_list (example_loss ''siren_wo_n_w_div'' ''linear'')
        (Some [1, 1 / 2, 2, 3])
     = Inr ((example_loss ''siren_wo_n_w_div'' ''linear'')
              \<lparr>decay_params_list := Some [(1, 0), (2, 1 / 2), (3, 1)]\<rparr>,
            [(1, 0), (2, 1 / 2), (3, 1)])"
proof -
  let ?self = "example_loss ''siren_wo_n_w_div'' ''linear''"
  have none: "decay_params_list ?self = None"
    by (simp add: example_loss_def Loss_init_def)
  have o: "odd (length (middle [1, 1 / 2, 2 :: rat]))" by (simp add: middle_def)
  have e: "2 \<le> length [1, 1 / 2, 2, 3 :: rat] \<and> even (length (middle [1, 1 / 2, 2, 3 :: rat]))"
    by (simp add: middle_def)
  have b: "build_decay_params_list [1, 1 / 2, 2, 3] = [(1, 0), (2, 1 / 2), (3, 1)]"
    by (simp add: build_decay_params_list_def middle_def)
  from validation_fails_iff[OF none, of 1 2 "[1, 1 / 2, 2]"] o
  have 1: "update_div_weight ?self 1 2 (Some [1, 1 / 2, 2]) = Inl (AssertionError, ?self)"
    by blast
  from validation_fails_iff[OF none, of 1 2 "[1, 1 / 2, 2, 3]"] e
  have 2: "ensure_decay_params_list ?self (Some [1, 1 / 2, 2, 3])
     = Inr (?self\<lparr>decay_params_list := Some (build_decay_params_list [1, 1 / 2, 2, 3])\<rparr>,
            build_decay_params_list [1, 1 / 2, 2, 3])"
    by blast
  from o 1 2[unfolded b] show ?thesis by blast
qed

section \<open>Claims about the cached schedule\<close>

text \<open>
  Claim C7. Once the control-point list is cached, a call does not look at \<^verbatim>\<open>params\<close>:
  whatever is passed (a sequence of any shape, or nothing) the call does what it does with
  any other argument, it raises neither \<^verbatim>\<open>AssertionError\<close> nor \<^verbatim>\<open>TypeError\<close>, and
  whether it returns or raises for another reason the cached list is the one it found and
  used for its query.
\<close>

theorem cached_schedule_reused:
  assumes "decay_params_list self = Some cps"
  shows "ensure_decay_params_list self params = Inr (self, cps)
       \<and> update_div_weight self ci n params = update_div_weight self ci n params'
       \<and> (case update_div_weight self ci n params of
             Inl (err, self') \<Rightarrow>
               decay_params_list self' = Some cps \<and> err \<noteq> AssertionError \<and> err \<noteq> TypeError
           | Inr self' \<Rightarrow> decay_params_list self' = Some cps)"
  using update_div_weight_cached[OF assms] update_div_weight_keeps_cache[OF assms]
  by blast

theorem cached_schedule_reused_witness:
  "update_div_weight
      ((example_loss ''siren_wo_n_w_div'' ''linear'')
         \<lparr>decay_params_list := Some [(100, 0), (100, 1 / 2), (0, 3 / 4), (0, 1)]\<rparr>)
      7000 10000 (Some [1])
   = Inr ((example_loss ''siren_wo_n_w_div'' ''linear'')
            \<lparr>decay_params_list := Some [(100, 0), (100, 1 / 2), (0, 3 / 4), (0, 1)],
             weights := [3000, 100, 100, 50, 20, 0, 0, 0]\<rparr>)"
proof -
  let ?cps = "[(100, 0), (100, 1 / 2), (0, 3 / 4), (0, 1)] :: (rat \<times> rat) list"
  let ?self = "(example_loss ''siren_wo_n_w_div'' ''linear'')\<lparr>decay_params_list := Some ?cps\<rparr>"
  have c: "decay_params_list ?self = Some ?cps" by simp
  have "update_div_weight ?self 7000 10000 (Some [100, 1 / 2, 100, 3 / 4, 0, 0])
        = Inr ((example_loss ''siren_wo_n_w_div'' ''linear'')
            \<lparr>decay_params_list := Some ?cps, weights := [3000, 100, 100, 50, 20, 0, 0, 0]\<rparr>)"
    by (simp add: update_div_weight_def ensure_decay_params_list_def
        example_loss_def Loss_init_def upper_bracket_def
        lower_bracket_def py_min_def py_max_def anneal_div_weight_def set_weight_def Let_def)
  with cached_schedule_reused[OF c, of "Some [1]" 7000 10000 "Some [100, 1 / 2, 100, 3 / 4, 0, 0]"]
  show ?thesis by simp
qed

section \<open>What \<^verbatim>\<open>forward\<close> does to the object\<close>

lemma bind_result_Inr:
  "bind_result m f = Inr b \<longleftrightarrow> (\<exists>a. m = Inr a \<and> f a = Inr b)"
  by (cases m) (simp_all add: bind_result_def)

lemma bind_result_Inl:
  "bind_result m f = Inl err \<longleftrightarrow> m = Inl err \<or> (\<exists>a. m = Inr a \<and> f a = Inl err)"
  by (cases m) (simp_all add: bind_result_def)

lemma bind_result_InlE:
  assumes "bind_result m f = Inl err"
  obtains "m = Inl err" | a where "m = Inr a" and "f a = Inl err"
  using assms unfolding bind_result_Inl by blast

lemma get_weight_Inl: "get_weight self i = Inl (err, self') \<Longrightarrow> self' = self"
  by (simp add: get_weight_def split: if_splits)

lemma weighted_sum_Inl: "weighted_sum self xs = Inl (err, self') \<Longrightarrow> self' = self"
proof (induction xs arbitrary: err self')
  case Nil
  then show ?case by simp
next
  case (Cons x xs)
  obtain i t where x: "x = (i, t)" by (cases x)
  from Cons.prems show ?case
    unfolding x weighted_sum.simps bind_result_Inl
    using Cons.IH get_weight_Inl by blast
qed

lemma compute_div_term_Inl: "compute_div_term self t = Inl (err, self') \<Longrightarrow> self' = self"
  unfolding compute_div_term_def
  by (auto simp: bind_result_Inl dest: get_weight_Inl split: if_splits)

lemma compute_eikonal_term_Inl:
  "compute_eikonal_term self t = Inl (err, self') \<Longrightarrow> self' = self"
  unfolding compute_eikonal_term_def
  by (auto simp: bind_result_Inl dest: get_weight_Inl split: if_splits)

lemma compute_normal_term_Inl:
  "compute_normal_term self t = Inl (err, self') \<Longrightarrow> self' = self"
  unfolding compute_normal_term_def
  by (auto simp: bind_result_Inl dest: get_weight_Inl split: if_splits)

lemma compute_inter_term_Inl:
  "compute_inter_term self t = Inl (err, self') \<Longrightarrow> self' = self"
  unfolding compute_inter_term_def
  by (auto simp: bind_result_Inl dest: get_weight_Inl split: if_splits)

lemma compute_heat_term_Inl:
  "compute_heat_term self t = Inl (err, self') \<Longrightarrow> self' = self"
  unfolding compute_heat_term_def
  by (auto simp: bind_result_Inl dest: get_weight_Inl split: if_splits)

lemma compute_phase_term_Inl:
  "compute_phase_term self t = Inl (err, self') \<Longrightarrow> self' = self"
  unfolding compute_phase_term_def
  by (auto simp: bind_result_Inl dest: get_weight_Inl split: if_splits)

lemma compute_terms_Inl:
  assumes "compute_terms self t = Inl (err, self')"
  shows "self' = self"
proof -
  let ?chain = "bind_result (compute_div_term self t) (\<lambda>dv.
        bind_result (compute_eikonal_term self t) (\<lambda>ek.
        bind_result (compute_normal_term self t) (\<lambda>nm.
        bind_result (compute_inter_term self t) (\<lambda>it.
        bind_result (compute_heat_term self t) (\<lambda>ht.
        bind_result (compute_phase_term self t) (\<lambda>ph.
          Inr \<lparr> div_term = dv, eikonal_term = ek, normal_term = nm,
                boundary_term = boundary_mean t, inter_term = it, heat_term = ht,
                phase_term = ph,
                nonmnfld_dists_loss =
                  (case nonmnfld_dists_gt_mean t of None \<Rightarrow> 0 | Some d \<Rightarrow> d),
                sal_term = (case nonmnfld_dists_sal_mean t of None \<Rightarrow> 0 | Some d \<Rightarrow> d) \<rparr>))))))"
  from assms consider (check) "self' = self" | (chain) "?chain = Inl (err, self')"
    unfolding compute_terms_def by (cases "nonmnfld_dist_pred_isnan t";
      cases "nonmnfld_dist_pred_isinf t"; cases "mnfld_pred_is_None t";
      cases "mnfld_grad_isnan t"; cases "nonmnfld_grad_isnan t") simp_all
  then show ?thesis
  proof cases
    case check
    then show ?thesis .
  next
    case chain
    then show ?thesis
      apply (elim bind_result_InlE)
            apply (erule compute_div_term_Inl)
           apply (erule compute_eikonal_term_Inl)
          apply (erule compute_normal_term_Inl)
         apply (erule compute_inter_term_Inl)
        apply (erule compute_heat_term_Inl)
       apply (erule compute_phase_term_Inl)
      apply simp
      done
  qed
qed

lemma combine_losses_Inr:
  "combine_losses self tm = Inr (l, self') \<Longrightarrow>
   self' = self\<lparr>weights :=
             (if loss_type self = ''siren_wo_n'' then (weights self)[2 := 0]
              else if loss_type self = ''igr'' then (weights self)[1 := 0]
              else if loss_type self = ''igr_wo_n'' then (weights self)[1 := 0, 2 := 0]
              else weights self)\<rparr>"
  unfolding combine_losses_def
  by (auto simp: bind_result_Inr simp del: weighted_sum.simps
           dest!: set_weight_Inr split: if_splits)

lemma combine_losses_Inl:
  "combine_losses self tm = Inl (err, self') \<Longrightarrow> self'\<lparr>weights := weights self\<rparr> = self"
  unfolding combine_losses_def
  by (auto simp: bind_result_Inl simp del: weighted_sum.simps
           dest!: set_weight_Inr set_weight_Inl weighted_sum_Inl split: if_splits)

lemma add_latent_reg_Inl: "add_latent_reg self t l = Inl (err, self') \<Longrightarrow> self' = self"
  by (auto simp: add_latent_reg_def bind_result_Inl dest: get_weight_Inl
           split: option.splits if_splits)

lemma forward_Inr:
  assumes "forward self t = Inr (out, self')"
  shows "self' = self\<lparr>weights :=
             (if loss_type self = ''siren_wo_n'' then (weights self)[2 := 0]
              else if loss_type self = ''igr'' then (weights self)[1 := 0]
              else if loss_type self = ''igr_wo_n'' then (weights self)[1 := 0, 2 := 0]
              else weights self)\<rparr>"
proof -
  from assms obtain tm l self1 where "combine_losses self tm = Inr (l, self1)" and "self' = self1"
    unfolding forward_def by (auto simp: bind_result_Inr split: prod.splits)
  then show ?thesis using combine_losses_Inr by blast
qed

lemma forward_Inl:
  assumes "forward self t = Inl (err, self')"
  shows "self'\<lparr>weights := weights self\<rparr> = self"
proof -
  from assms consider
      (terms) "compute_terms self t = Inl (err, self')"
    | (combine) tm where "combine_losses self tm = Inl (err, self')"
    | (latent) tm l self1 where "combine_losses self tm = Inr (l, self1)"
        and "add_latent_reg self1 t l = Inl (err, self')"
    unfolding forward_def by (auto simp: bind_result_Inl split: prod.splits)
  then show ?thesis
  proof cases
    case terms
    then show ?thesis by (auto dest: compute_terms_Inl)
  next
    case combine
    then show ?thesis by (rule combine_losses_Inl)
  next
    case latent
    from add_latent_reg_Inl[OF latent(2)] combine_losses_Inr[OF latent(1)]
    show ?thesis by simp
  qed
qed

lemma forward_example_igr:
  "forward (example_loss ''igr'' ''none'') example_tensors
   = Inr (\<lparr>loss_value = 75, out_boundary_term = 1 / 100, out_inter_term = 1 / 50,
            out_latent_reg_term = 0, out_eikonal_term = 1 / 2, out_normal_term = 1 / 5,
            out_div_term = 0, out_sal_term = 0, out_heat_term = 0, out_diff_term = 0\<rparr>,
          (example_loss ''igr'' ''none'')\<lparr>weights := [3000, 0, 100, 50, 100, 0, 0, 0]\<rparr>)"
  by (simp add: forward_def compute_terms_def compute_div_term_def compute_eikonal_term_def
        compute_normal_term_def compute_inter_term_def compute_heat_term_def
        compute_phase_term_def combine_losses_def add_latent_reg_def bind_result_def
        get_weight_def set_weight_def example_loss_def example_tensors_def Loss_init_def)

section \<open>Claims about \<^verbatim>\<open>forward\<close>\<close>

text \<open>
  Claim C2, as stated: for every preset \<^verbatim>\<open>loss_type\<close> a call of \<^verbatim>\<open>forward\<close> leaves the
  weight vector unchanged. It is false for the preset \<^verbatim>\<open>igr\<close>, whose branch assigns
  \<^verbatim>\<open>self.weights[1] = 0\<close> before it sums: the call below returns, and the weight at
  index 1 has gone from 100 to 0.
\<close>

theorem forward_writes_weights_counterexample:
  "''igr'' \<in> set loss_type_presets
   \<and> weights (example_loss ''igr'' ''none'') = [3000, 100, 100, 50, 100, 0, 0, 0]
   \<and> forward (example_loss ''igr'' ''none'') example_tensors
     = Inr (\<lparr>loss_value = 75, out_boundary_term = 1 / 100, out_inter_term = 1 / 50,
              out_latent_reg_term = 0, out_eikonal_term = 1 / 2, out_normal_term = 1 / 5,
              out_div_term = 0, out_sal_term = 0, out_heat_term = 0, out_diff_term = 0\<rparr>,
            (example_loss ''igr'' ''none'')\<lparr>weights := [3000, 0, 100, 50, 100, 0, 0, 0]\<rparr>)"
  using forward_example_igr by (simp add: loss_type_presets_def example_loss_def Loss_init_def)

text \<open>
  Claim C2, amended. A call of \<^verbatim>\<open>forward\<close> changes no attribute of the object other than
  the weight vector, whether it returns or raises. When it returns, the weight vector is
  unchanged for every \<^verbatim>\<open>loss_type\<close> other than \<^verbatim>\<open>siren_wo_n\<close>, \<^verbatim>\<open>igr\<close> and
  \<^verbatim>\<open>igr_wo_n\<close>; for these it is the old vector with 0 stored at index 2, at index 1, and at
  both.
\<close>

theorem forward_frame:
  "(\<forall>self t out self'. forward self t = Inr (out, self') \<longrightarrow>
      self' = self\<lparr>weights :=
                (if loss_type self = ''siren_wo_n'' then (weights self)[2 := 0]
                 else if loss_type self = ''igr'' then (weights self)[1 := 0]
                 else if loss_type self = ''igr_wo_n'' then (weights self)[1 := 0, 2 := 0]
                 else weights self)\<rparr>
      \<and> (loss_type self \<noteq> ''siren_wo_n'' \<and> loss_type self \<noteq> ''igr''
           \<and> loss_type self \<noteq> ''igr_wo_n'' \<longrightarrow> self' = self))
   \<and> (\<forall>self t err self'. forward self t = Inl (err, self') \<longrightarrow>
        self'\<lparr>weights := weights self\<rparr> = self)"
proof (intro conjI allI impI)
  fix self t out self'
  assume a: "forward self t = Inr (out, self')"
  from forward_Inr[OF a]
  show "self' = self\<lparr>weights :=
                (if loss_type self = ''siren_wo_n'' then (weights self)[2 := 0]
                 else if loss_type self = ''igr'' then (weights self)[1 := 0]
                 else if loss_type self = ''igr_wo_n'' then (weights self)[1 := 0, 2 := 0]
                 else weights self)\<rparr>" .
  assume "loss_type self \<noteq> ''siren_wo_n'' \<and> loss_type self \<noteq> ''igr''
           \<and> loss_type self \<noteq> ''igr_wo_n''"
  with forward_Inr[OF a] show "self' = self" by simp
next
  fix self t err self'
  assume "forward self t = Inl (err, self')"
  then show "self'\<lparr>weights := weights self\<rparr> = self" by (rule forward_Inl)
qed

theorem forward_frame_witness:
  "\<exists>out. forward (example_loss ''igr'' ''none'') example_tensors
     = Inr (out, (example_loss ''igr'' ''none'')
                   \<lparr>weights := (weights (example_loss ''igr'' ''none''))[1 := 0]\<rparr>)"
proof -
  let ?self = "example_loss ''igr'' ''none''"
  from forward_example_igr obtain out self'
    where ev: "forward ?self example_tensors = Inr (out, self')" by blast
  have lt: "loss_type ?self = ''igr''" by (simp add: example_loss_def Loss_init_def)
  from forward_frame ev
  have "self' = ?self\<lparr>weights :=
                (if loss_type ?self = ''siren_wo_n'' then (weights ?self)[2 := 0]
                 else if loss_type ?self = ''igr'' then (weights ?self)[1 := 0]
                 else if loss_type ?self = ''igr_wo_n'' then (weights ?self)[1 := 0, 2 := 0]
                 else weights ?self)\<rparr>"
    by blast
  then have "self' = ?self\<lparr>weights := (weights ?self)[1 := 0]\<rparr>"
    unfolding lt by simp
  with ev show ?thesis by blast
qed

end
